theory Spec2Isabelle
  imports Complex_Main
begin

section \<open>Entity model (types/machine.ts)\<close>

text \<open>
  A JavaScript number is a finite value, one of the two infinities, or NaN. Finite
  results of the arithmetic are taken exact: rounding to binary64 and overflow to an
  infinity are not modelled. The properties below read of a number only whether it is
  NaN, infinite or \<open>>= 0\<close>, which rounding does not change, and the values computed in
  the examples are exact in binary64. String ids are \<open>string\<close>. An optional property (\<open>type?\<close>, \<open>description?\<close>,
  \<open>flowRate?\<close>) is an \<open>option\<close>; \<open>string | null\<close> is a \<open>string option\<close>.
  The property \<open>id\<close> is written \<open>id_m\<close> (machine), \<open>id_c\<close> (connection) and
  \<open>id_d\<close> (feed record), since \<open>id\<close> is the identity function of HOL; \<open>type\<close> is
  written \<open>type_m\<close>.
\<close>

datatype number = Fin real | PosInf | NegInf | NaN



text \<open>The operators \<open>+\<close>, \<open>-\<close> and \<open>*\<close> on numbers, with the special values of IEEE 754.\<close>

fun js_neg :: "number \<Rightarrow> number" where
  "js_neg (Fin x) = Fin (- x)"
| "js_neg PosInf = NegInf"
| "js_neg NegInf = PosInf"
| "js_neg NaN = NaN"

fun js_add :: "number \<Rightarrow> number \<Rightarrow> number" where
  "js_add NaN b = NaN"
| "js_add a NaN = NaN"
| "js_add (Fin x) (Fin y) = Fin (x + y)"
| "js_add PosInf NegInf = NaN"
| "js_add NegInf PosInf = NaN"
| "js_add PosInf b = PosInf"
| "js_add a PosInf = PosInf"
| "js_add NegInf b = NegInf"
| "js_add a NegInf = NegInf"

definition js_sub :: "number \<Rightarrow> number \<Rightarrow> number" where
  "js_sub a b = js_add a (js_neg b)"

text \<open>An infinity times \<open>x\<close>: NaN for zero, else the infinity with the sign of the product.\<close>

definition scaleInf :: "bool \<Rightarrow> real \<Rightarrow> number" where
  "scaleInf positive x =
     (if x = 0 then NaN else if (0 < x) = positive then PosInf else NegInf)"

fun js_mul :: "number \<Rightarrow> number \<Rightarrow> number" where
  "js_mul NaN b = NaN"
| "js_mul a NaN = NaN"
| "js_mul (Fin x) (Fin y) = Fin (x * y)"
| "js_mul (Fin x) PosInf = scaleInf True x"
| "js_mul (Fin x) NegInf = scaleInf False x"
| "js_mul PosInf (Fin y) = scaleInf True y"
| "js_mul NegInf (Fin y) = scaleInf False y"
| "js_mul PosInf PosInf = PosInf"
| "js_mul PosInf NegInf = NegInf"
| "js_mul NegInf PosInf = NegInf"
| "js_mul NegInf NegInf = PosInf"

text \<open>\<open>Math.floor\<close> and \<open>Math.max\<close> of two arguments; \<open>Math.max\<close> is NaN if an argument is.\<close>

fun Math_floor :: "number \<Rightarrow> number" where
  "Math_floor (Fin x) = Fin (of_int \<lfloor>x\<rfloor>)"
| "Math_floor PosInf = PosInf"
| "Math_floor NegInf = NegInf"
| "Math_floor NaN = NaN"

fun Math_max :: "number \<Rightarrow> number \<Rightarrow> number" where
  "Math_max NaN b = NaN"
| "Math_max a NaN = NaN"
| "Math_max PosInf b = PosInf"
| "Math_max a PosInf = PosInf"
| "Math_max NegInf b = b"
| "Math_max a NegInf = a"
| "Math_max (Fin x) (Fin y) = Fin (max x y)"

datatype MachineStatus = Active | Idle | Stopped | Maintenance

datatype MachineType = Conveyor | Processor | Packer | Quality

record Machine =
  id_m :: string
  name :: string
  status :: MachineStatus
  throughput :: number
  position :: "number \<times> number \<times> number"
  type_m :: "MachineType option"
  description :: "string option"

record Connection =
  id_c :: string
  fromMachineId :: string
  toMachineId :: string
  flowRate :: "number option"

text \<open>The element type of the batch: \<open>{ id: string; status: MachineStatus; throughput: number }\<close>.\<close>

record ProductionRecord =
  id_d :: string
  status_d :: MachineStatus
  throughput_d :: number

text \<open>\<open>Omit<Machine, 'id'>\<close>, the argument of \<open>addMachine\<close>.\<close>

record MachineFields =
  name_f :: string
  status_f :: MachineStatus
  throughput_f :: number
  position_f :: "number \<times> number \<times> number"
  type_f :: "MachineType option"
  description_f :: "string option"

text \<open>
  \<open>Partial<Machine>\<close>, the argument of \<open>updateMachine\<close>: every key may be absent
  (\<open>None\<close>). For the two optional properties a present key may also hold
  \<open>undefined\<close> (\<open>Some None\<close>), which the spread copies like any other value.
\<close>

record MachinePartial =
  id_p :: "string option"
  name_p :: "string option"
  status_p :: "MachineStatus option"
  throughput_p :: "number option"
  position_p :: "(number \<times> number \<times> number) option"
  type_p :: "MachineType option option"
  description_p :: "string option option"

section \<open>Store (store/machineStore.ts)\<close>

record MachineState =
  machines :: "Machine list"
  connections :: "Connection list"
  selectedMachineId :: "string option"

definition initialState :: MachineState where
  "initialState = \<lparr>machines = [], connections = [], selectedMachineId = None\<rparr>"

text \<open>
  Template literals render \<open>Date.now()\<close>, a non-negative integer, in decimal.
\<close>

definition digit :: "nat \<Rightarrow> char" where
  "digit d = ''0123456789'' ! d"

fun show_nat :: "nat \<Rightarrow> string" where
  "show_nat n =
     (if n < 10 then [digit n]
      else show_nat (n div 10) @ [digit (n mod 10)])"

declare show_nat.simps [simp del]

text \<open>
  \<open>addMachine\<close> and \<open>addConnection\<close> read the clock and the random generator. Both
  readings are inputs of the model: \<open>now\<close> is the value of \<open>Date.now()\<close> and \<open>rnd\<close>
  is the text \<open>Math.random().toString(36).substr(2, 9)\<close>.
\<close>

definition machineId :: "nat \<Rightarrow> string \<Rightarrow> string" where
  "machineId now rnd = ''machine-'' @ show_nat now @ ''-'' @ rnd"

definition connectionId :: "nat \<Rightarrow> string \<Rightarrow> string" where
  "connectionId now rnd = ''conn-'' @ show_nat now @ ''-'' @ rnd"

text \<open>\<open>{ ...machine, id }\<close>\<close>

definition withId :: "MachineFields \<Rightarrow> string \<Rightarrow> Machine" where
  "withId machine i =
     \<lparr>id_m = i, name = name_f machine, status = status_f machine,
      throughput = throughput_f machine, position = position_f machine,
      type_m = type_f machine, description = description_f machine\<rparr>"

definition addMachine :: "nat \<Rightarrow> string \<Rightarrow> MachineFields \<Rightarrow> MachineState \<Rightarrow> MachineState" where
  "addMachine now rnd machine state =
     state\<lparr>machines := machines state @ [withId machine (machineId now rnd)]\<rparr>"

text \<open>\<open>{ ...m, ...updates }\<close>: every key present in \<open>updates\<close> overwrites, \<open>id\<close> included.\<close>

definition spread :: "Machine \<Rightarrow> MachinePartial \<Rightarrow> Machine" where
  "spread m updates =
     \<lparr>id_m = (case id_p updates of None \<Rightarrow> id_m m | Some v \<Rightarrow> v),
      name = (case name_p updates of None \<Rightarrow> name m | Some v \<Rightarrow> v),
      status = (case status_p updates of None \<Rightarrow> status m | Some v \<Rightarrow> v),
      throughput = (case throughput_p updates of None \<Rightarrow> throughput m | Some v \<Rightarrow> v),
      position = (case position_p updates of None \<Rightarrow> position m | Some v \<Rightarrow> v),
      type_m = (case type_p updates of None \<Rightarrow> type_m m | Some v \<Rightarrow> v),
      description = (case description_p updates of None \<Rightarrow> description m | Some v \<Rightarrow> v)\<rparr>"

definition updateMachine :: "string \<Rightarrow> MachinePartial \<Rightarrow> MachineState \<Rightarrow> MachineState" where
  "updateMachine i updates state =
     state\<lparr>machines := map (\<lambda>m. if id_m m = i then spread m updates else m) (machines state)\<rparr>"

definition deleteMachine :: "string \<Rightarrow> MachineState \<Rightarrow> MachineState" where
  "deleteMachine i state =
     state\<lparr>machines := filter (\<lambda>m. id_m m \<noteq> i) (machines state),
           connections := filter (\<lambda>c. fromMachineId c \<noteq> i \<and> toMachineId c \<noteq> i) (connections state),
           selectedMachineId := (if selectedMachineId state = Some i then None
                                 else selectedMachineId state)\<rparr>"

definition selectMachine :: "string option \<Rightarrow> MachineState \<Rightarrow> MachineState" where
  "selectMachine i state = state\<lparr>selectedMachineId := i\<rparr>"

definition addConnection :: "nat \<Rightarrow> string \<Rightarrow> string \<Rightarrow> string \<Rightarrow> MachineState \<Rightarrow> MachineState" where
  "addConnection now rnd fromId toId state =
     (if fromId = toId then state
      else if list_ex (\<lambda>c. fromMachineId c = fromId \<and> toMachineId c = toId) (connections state)
      then state
      else state\<lparr>connections := connections state @
             [\<lparr>id_c = connectionId now rnd, fromMachineId = fromId, toMachineId = toId,
               flowRate = None\<rparr>]\<rparr>)"

definition deleteConnection :: "string \<Rightarrow> MachineState \<Rightarrow> MachineState" where
  "deleteConnection i state =
     state\<lparr>connections := filter (\<lambda>c. id_c c \<noteq> i) (connections state)\<rparr>"

definition updateMachineStatus :: "string \<Rightarrow> MachineStatus \<Rightarrow> MachineState \<Rightarrow> MachineState" where
  "updateMachineStatus i s state =
     state\<lparr>machines := map (\<lambda>m. if id_m m = i then m\<lparr>status := s\<rparr> else m) (machines state)\<rparr>"

definition updateMachineThroughput :: "string \<Rightarrow> number \<Rightarrow> MachineState \<Rightarrow> MachineState" where
  "updateMachineThroughput i t state =
     state\<lparr>machines := map (\<lambda>m. if id_m m = i then m\<lparr>throughput := t\<rparr> else m) (machines state)\<rparr>"

text \<open>\<open>data.find\<close> returns the first record of the batch with the machine's id.\<close>

definition reconcile :: "ProductionRecord list \<Rightarrow> Machine \<Rightarrow> Machine" where
  "reconcile data m =
     (case find (\<lambda>d. id_d d = id_m m) data of
        Some update \<Rightarrow> m\<lparr>status := status_d update, throughput := throughput_d update\<rparr>
      | None \<Rightarrow> m)"

definition batchUpdateFromProductionData :: "ProductionRecord list \<Rightarrow> MachineState \<Rightarrow> MachineState" where
  "batchUpdateFromProductionData data state =
     state\<lparr>machines := map (reconcile data) (machines state)\<rparr>"

text \<open>A run of \<open>addMachine\<close> calls, each with its clock and random readings.\<close>

fun addMachines :: "(nat \<times> string \<times> MachineFields) list \<Rightarrow> MachineState \<Rightarrow> MachineState" where
  "addMachines [] state = state"
| "addMachines ((now, rnd, machine) # calls) state =
     addMachines calls (addMachine now rnd machine state)"

text \<open>The store operations as data, to speak about sequences of calls.\<close>

datatype StoreOp =
    AddMachine nat string MachineFields
  | UpdateMachine string MachinePartial
  | DeleteMachine string
  | SelectMachine "string option"
  | AddConnection nat string string string
  | DeleteConnection string
  | UpdateMachineStatus string MachineStatus
  | UpdateMachineThroughput string number
  | BatchUpdate "ProductionRecord list"

fun applyOp :: "StoreOp \<Rightarrow> MachineState \<Rightarrow> MachineState" where
  "applyOp (AddMachine now rnd machine) state = addMachine now rnd machine state"
| "applyOp (UpdateMachine i updates) state = updateMachine i updates state"
| "applyOp (DeleteMachine i) state = deleteMachine i state"
| "applyOp (SelectMachine i) state = selectMachine i state"
| "applyOp (AddConnection now rnd fromId toId) state = addConnection now rnd fromId toId state"
| "applyOp (DeleteConnection i) state = deleteConnection i state"
| "applyOp (UpdateMachineStatus i s) state = updateMachineStatus i s state"
| "applyOp (UpdateMachineThroughput i t) state = updateMachineThroughput i t state"
| "applyOp (BatchUpdate data) state = batchUpdateFromProductionData data state"

fun runOps :: "StoreOp list \<Rightarrow> MachineState \<Rightarrow> MachineState" where
  "runOps [] state = state"
| "runOps (op # ops) state = runOps ops (applyOp op state)"

definition machineIds :: "MachineState \<Rightarrow> string list" where
  "machineIds state = map id_m (machines state)"

text \<open>The selection is empty or names a machine of the store.\<close>

definition selectionValid :: "MachineState \<Rightarrow> bool" where
  "selectionValid state =
     (case selectedMachineId state of None \<Rightarrow> True | Some i \<Rightarrow> i \<in> set (machineIds state))"

text \<open>An \<open>updateMachine\<close> call whose partial has no \<open>id\<close> key.\<close>

fun keepsId :: "StoreOp \<Rightarrow> bool" where
  "keepsId (UpdateMachine i updates) = (id_p updates = None)"
| "keepsId _ = True"

text \<open>
  A call that cannot leave the selection dangling: \<open>selectMachine\<close> with \<open>null\<close> or the
  id of a machine of the store, \<open>updateMachine\<close> without an \<open>id\<close> key, any other call.
\<close>

fun selectsPresent :: "MachineState \<Rightarrow> StoreOp \<Rightarrow> bool" where
  "selectsPresent state (SelectMachine None) = True"
| "selectsPresent state (SelectMachine (Some i)) = (i \<in> set (machineIds state))"
| "selectsPresent state op = keepsId op"

fun allSelectPresent :: "MachineState \<Rightarrow> StoreOp list \<Rightarrow> bool" where
  "allSelectPresent state [] = True"
| "allSelectPresent state (op # ops) =
     (selectsPresent state op \<and> allSelectPresent (applyOp op state) ops)"

text \<open>The number of connections with the ordered pair \<open>(a, b)\<close>.\<close>

definition pairCount :: "string \<Rightarrow> string \<Rightarrow> MachineState \<Rightarrow> nat" where
  "pairCount a b state =
     length (filter (\<lambda>c. fromMachineId c = a \<and> toMachineId c = b) (connections state))"

text \<open>The ids a run of \<open>addMachine\<close> calls generates, in call order.\<close>

definition generatedIds :: "(nat \<times> string \<times> MachineFields) list \<Rightarrow> string list" where
  "generatedIds calls = map (\<lambda>(now, rnd, machine). machineId now rnd) calls"

section \<open>Simulator (hooks/useSimulation.ts)\<close>

record SimulationConfig =
  updateInterval :: number
  fluctuationRange :: number

definition defaultConfig :: SimulationConfig where
  "defaultConfig = \<lparr>updateInterval = Fin 2000, fluctuationRange = Fin 10\<rparr>"



text \<open>
  The three \<open>Math.random()\<close> readings one machine can consume in a tick, in the order
  of the calls: the 10% test, the draw of \<open>generateRandomStatus\<close>, the fluctuation.
  A reading is a finite number.
\<close>

record Draws =
  chance :: real
  pick :: real
  jitter :: real

definition generateRandomStatus :: "real \<Rightarrow> MachineStatus" where
  "generateRandomStatus rand =
     (if rand > 0.85 then Maintenance
      else if rand > 0.7 then Idle
      else if rand > 0.6 then Stopped
      else Active)"

text \<open>
  \<open>Math.floor(Math.random() * finalConfig.fluctuationRange * 2) - finalConfig.fluctuationRange\<close>
\<close>

definition fluctuation :: "SimulationConfig \<Rightarrow> Draws \<Rightarrow> number" where
  "fluctuation cfg r =
     js_sub (Math_floor (js_mul (js_mul (Fin (jitter r)) (fluctuationRange cfg)) (Fin 2)))
       (fluctuationRange cfg)"

text \<open>
  The last block of the callback. \<open>machine\<close> is the element of the array the callback
  iterates, not the machine of the store.
\<close>

definition fluctuate :: "SimulationConfig \<Rightarrow> Draws \<Rightarrow> Machine \<Rightarrow> MachineState \<Rightarrow> MachineState" where
  "fluctuate cfg r machine state =
     (if status machine = Active
      then updateMachineThroughput (id_m machine)
             (Math_max (Fin 0) (js_add (throughput machine) (fluctuation cfg r))) state
      else state)"

text \<open>The callback of \<open>machines.forEach\<close>; \<open>return\<close> ends the callback for this machine.\<close>

definition simulateMachine :: "SimulationConfig \<Rightarrow> Draws \<Rightarrow> Machine \<Rightarrow> MachineState \<Rightarrow> MachineState" where
  "simulateMachine cfg r machine state =
     (if chance r < 0.1 then
        (let newStatus = generateRandomStatus (pick r);
             state1 = updateMachineStatus (id_m machine) newStatus state
         in if newStatus = Stopped \<or> newStatus = Maintenance
            then updateMachineThroughput (id_m machine) (Fin 0) state1
            else if newStatus = Idle
            then updateMachineThroughput (id_m machine)
                   (Math_floor (js_mul (throughput machine) (Fin 0.3))) state1
            else fluctuate cfg r machine state1)
      else fluctuate cfg r machine state)"

text \<open>
  \<open>simulateStep\<close>: one tick. \<open>snapshot\<close> is the array \<open>machines\<close> the callback closes
  over; \<open>rnd k\<close> are the readings for the machine at position \<open>k\<close>.
\<close>

fun forEachMachine :: "SimulationConfig \<Rightarrow> (nat \<Rightarrow> Draws) \<Rightarrow> nat \<Rightarrow> Machine list \<Rightarrow> MachineState \<Rightarrow> MachineState" where
  "forEachMachine cfg rnd k [] state = state"
| "forEachMachine cfg rnd k (machine # rest) state =
     forEachMachine cfg rnd (Suc k) rest (simulateMachine cfg (rnd k) machine state)"

definition simulateStep :: "SimulationConfig \<Rightarrow> Machine list \<Rightarrow> (nat \<Rightarrow> Draws) \<Rightarrow> MachineState \<Rightarrow> MachineState" where
  "simulateStep cfg snapshot rnd state = forEachMachine cfg rnd 0 snapshot state"





section \<open>Push feed adapter (api/productionApi.ts, class ProductionWebSocket)\<close>

record ProductionWebSocket =
  reconnectInterval :: nat
  reconnectAttempts :: nat
  maxReconnectAttempts :: nat

definition newProductionWebSocket :: ProductionWebSocket where
  "newProductionWebSocket =
     \<lparr>reconnectInterval = 3000, reconnectAttempts = 0, maxReconnectAttempts = 5\<rparr>"

text \<open>
  \<open>attemptReconnect\<close> returns the adapter and whether it called \<open>setTimeout\<close> to
  schedule \<open>connect\<close>.
\<close>

definition attemptReconnect :: "ProductionWebSocket \<Rightarrow> ProductionWebSocket \<times> bool" where
  "attemptReconnect w =
     (if reconnectAttempts w < maxReconnectAttempts w
      then (w\<lparr>reconnectAttempts := reconnectAttempts w + 1\<rparr>, True)
      else (w, False))"

text \<open>
  What can happen to the adapter: the four socket handlers installed by \<open>connect\<close>, and
  \<open>connect\<close> itself (called by a caller or by a timer), which touches no counter.
\<close>

datatype SocketEvent = OnOpen | OnMessage | OnError | OnClose | Connect

fun handle :: "SocketEvent \<Rightarrow> ProductionWebSocket \<Rightarrow> ProductionWebSocket \<times> bool" where
  "handle OnOpen w = (w\<lparr>reconnectAttempts := 0\<rparr>, False)"
| "handle OnClose w = attemptReconnect w"
| "handle OnMessage w = (w, False)"
| "handle OnError w = (w, False)"
| "handle Connect w = (w, False)"

text \<open>A trace of events: the final adapter and the number of reconnects it scheduled.\<close>

fun runSocket :: "SocketEvent list \<Rightarrow> ProductionWebSocket \<Rightarrow> ProductionWebSocket \<times> nat" where
  "runSocket [] w = (w, 0)"
| "runSocket (e # es) w =
     (case handle e w of (w1, scheduled) \<Rightarrow>
        (case runSocket es w1 of (w2, n) \<Rightarrow> (w2, (if scheduled then 1 else 0) + n)))"

section \<open>Example stores\<close>

definition feeder :: Machine where
  "feeder = \<lparr>id_m = ''m1'', name = ''Feeder'', status = Active, throughput = Fin 120,
     position = (Fin (- 6), Fin 0, Fin (- 4)), type_m = Some Conveyor, description = None\<rparr>"

definition packer :: Machine where
  "packer = \<lparr>id_m = ''m2'', name = ''Packer'', status = Idle, throughput = Fin 100,
     position = (Fin 6, Fin 0, Fin 0), type_m = Some Packer, description = Some ''end of line''\<rparr>"

definition lineStore :: MachineState where
  "lineStore = \<lparr>machines = [feeder, packer],
     connections = [\<lparr>id_c = ''c1'', fromMachineId = ''m1'', toMachineId = ''m2'', flowRate = None\<rparr>],
     selectedMachineId = Some ''m1''\<rparr>"

text \<open>An empty store to which a connection between two unknown ids was added.\<close>

definition danglingStore :: MachineState where
  "danglingStore = addConnection 7 ''r'' ''a'' ''b'' initialState"

definition newFields :: MachineFields where
  "newFields = \<lparr>name_f = ''New'', status_f = Idle, throughput_f = Fin 0, position_f = (Fin 0, Fin 0, Fin 0),
     type_f = Some Processor, description_f = Some []\<rparr>"

definition noUpdates :: MachinePartial where
  "noUpdates = \<lparr>id_p = None, name_p = None, status_p = None, throughput_p = None,
     position_p = None, type_p = None, description_p = None\<rparr>"

definition feedBatch :: "ProductionRecord list" where
  "feedBatch = [\<lparr>id_d = ''m1'', status_d = Stopped, throughput_d = Fin 0\<rparr>,
                \<lparr>id_d = ''m9'', status_d = Active, throughput_d = Fin 5\<rparr>]"

definition packerMaintained :: ProductionRecord where
  "packerMaintained = \<lparr>id_d = ''m2'', status_d = Maintenance, throughput_d = Fin 0\<rparr>"

definition feederStopped :: ProductionRecord where
  "feederStopped = \<lparr>id_d = ''m1'', status_d = Stopped, throughput_d = Fin 0\<rparr>"

definition feederActive :: ProductionRecord where
  "feederActive = \<lparr>id_d = ''m1'', status_d = Active, throughput_d = Fin 75\<rparr>"

definition renameTo :: "string \<Rightarrow> MachinePartial" where
  "renameTo j = noUpdates\<lparr>id_p := Some j\<rparr>"

definition idleStore :: MachineState where
  "idleStore = \<lparr>machines = [packer], connections = [], selectedMachineId = None\<rparr>"


text \<open>Readings that make step 1 draw \<open>active\<close> and give a fluctuation of 8 at range 10.\<close>

definition activating :: Draws where
  "activating = \<lparr>chance = 0.05, pick = 0.5, jitter = 0.9\<rparr>"




text \<open>A tick that draws \<open>active\<close> for every machine.\<close>

definition activatingTick :: "nat \<Rightarrow> Draws" where
  "activatingTick k = activating"


section \<open>Reconciliation\<close>

lemma reconcile_frame:
  "id_m (reconcile data m) = id_m m \<and> name (reconcile data m) = name m \<and>
   position (reconcile data m) = position m \<and> type_m (reconcile data m) = type_m m \<and>
   description (reconcile data m) = description m"
  by (simp add: reconcile_def split: option.split)

lemma reconcile_unmatched:
  "\<forall>d\<in>set data. id_d d \<noteq> id_m m \<Longrightarrow> reconcile data m = m"
proof -
  assume "\<forall>d\<in>set data. id_d d \<noteq> id_m m"
  then have "find (\<lambda>d. id_d d = id_m m) data = None"
    by (simp add: find_None_iff)
  then show ?thesis
    by (simp add: reconcile_def)
qed

lemma reconcile_matched:
  "\<exists>d\<in>set data. id_d d = id_m m \<Longrightarrow>
   \<exists>d\<in>set data. id_d d = id_m m \<and> status (reconcile data m) = status_d d \<and>
     throughput (reconcile data m) = throughput_d d"
proof -
  assume ex: "\<exists>d\<in>set data. id_d d = id_m m"
  then obtain u where u: "find (\<lambda>d. id_d d = id_m m) data = Some u"
    by (cases "find (\<lambda>d. id_d d = id_m m) data") (auto simp: find_None_iff)
  then have "u \<in> set data" "id_d u = id_m m"
    by (auto simp: find_Some_iff)
  with u show ?thesis
    by (auto simp: reconcile_def)
qed

lemma reconcile_known_only:
  "m \<in> set ms \<Longrightarrow>
   reconcile (filter (\<lambda>d. id_d d \<in> id_m ` set ms) data) m = reconcile data m"
proof (induction data)
  case Nil
  then show ?case by simp
next
  case (Cons d data)
  then show ?case
    by (auto simp: reconcile_def)
qed

text \<open>
  C1. Reconciliation is an id-keyed left-merge. The batch leaves the number of machines,
  the connections and the selection as they are. Position by position, a machine keeps its
  id, name, position, type and description; if some record of the batch has its id, its
  status and throughput are those of a record of the batch with that id; if no record has
  its id, the machine is unchanged. Records whose id belongs to no machine are ignored:
  dropping them from the batch gives the same store.
\<close>

theorem batchUpdate_left_merge:
  "length (machines (batchUpdateFromProductionData data state)) = length (machines state) \<and>
   connections (batchUpdateFromProductionData data state) = connections state \<and>
   selectedMachineId (batchUpdateFromProductionData data state) = selectedMachineId state \<and>
   (\<forall>k < length (machines state).
      let m = machines state ! k; m' = machines (batchUpdateFromProductionData data state) ! k
      in id_m m' = id_m m \<and> name m' = name m \<and> position m' = position m \<and>
         type_m m' = type_m m \<and> description m' = description m \<and>
         ((\<exists>d\<in>set data. id_d d = id_m m) \<longrightarrow>
            (\<exists>d\<in>set data. id_d d = id_m m \<and> status m' = status_d d \<and>
               throughput m' = throughput_d d)) \<and>
         ((\<forall>d\<in>set data. id_d d \<noteq> id_m m) \<longrightarrow> m' = m)) \<and>
   batchUpdateFromProductionData
     (filter (\<lambda>d. id_d d \<in> id_m ` set (machines state)) data) state =
   batchUpdateFromProductionData data state"
proof -
  have frame: "length (machines (batchUpdateFromProductionData data state)) = length (machines state)"
    "connections (batchUpdateFromProductionData data state) = connections state"
    "selectedMachineId (batchUpdateFromProductionData data state) = selectedMachineId state"
    by (simp_all add: batchUpdateFromProductionData_def)
  have pointwise: "\<forall>k < length (machines state).
      let m = machines state ! k; m' = machines (batchUpdateFromProductionData data state) ! k
      in id_m m' = id_m m \<and> name m' = name m \<and> position m' = position m \<and>
         type_m m' = type_m m \<and> description m' = description m \<and>
         ((\<exists>d\<in>set data. id_d d = id_m m) \<longrightarrow>
            (\<exists>d\<in>set data. id_d d = id_m m \<and> status m' = status_d d \<and>
               throughput m' = throughput_d d)) \<and>
         ((\<forall>d\<in>set data. id_d d \<noteq> id_m m) \<longrightarrow> m' = m)"
  proof (intro allI impI)
    fix k assume k: "k < length (machines state)"
    have nth: "machines (batchUpdateFromProductionData data state) ! k =
               reconcile data (machines state ! k)"
      using k by (simp add: batchUpdateFromProductionData_def)
    show "let m = machines state ! k; m' = machines (batchUpdateFromProductionData data state) ! k
      in id_m m' = id_m m \<and> name m' = name m \<and> position m' = position m \<and>
         type_m m' = type_m m \<and> description m' = description m \<and>
         ((\<exists>d\<in>set data. id_d d = id_m m) \<longrightarrow>
            (\<exists>d\<in>set data. id_d d = id_m m \<and> status m' = status_d d \<and>
               throughput m' = throughput_d d)) \<and>
         ((\<forall>d\<in>set data. id_d d \<noteq> id_m m) \<longrightarrow> m' = m)"
      unfolding Let_def nth
      using reconcile_frame [of data "machines state ! k"]
        reconcile_matched [of data "machines state ! k"]
        reconcile_unmatched [of data "machines state ! k"]
      by blast
  qed
  have ignore: "batchUpdateFromProductionData
     (filter (\<lambda>d. id_d d \<in> id_m ` set (machines state)) data) state =
   batchUpdateFromProductionData data state"
    by (simp add: batchUpdateFromProductionData_def reconcile_known_only)
  from frame pointwise ignore show ?thesis by blast
qed

theorem batchUpdate_left_merge_witness:
  "(\<exists>d\<in>set feedBatch. id_d d = id_m feeder) \<and>
   \<not> (\<exists>d\<in>set feedBatch. id_d d = id_m packer) \<and>
   machines (batchUpdateFromProductionData feedBatch lineStore) =
     [feeder\<lparr>status := Stopped, throughput := Fin 0\<rparr>, packer]"
proof -
  have ev: "machines (batchUpdateFromProductionData feedBatch lineStore) =
     [feeder\<lparr>status := Stopped, throughput := Fin 0\<rparr>, packer]"
    by (simp add: feedBatch_def lineStore_def feeder_def packer_def
      batchUpdateFromProductionData_def reconcile_def)
  have matched: "\<exists>d\<in>set feedBatch. id_d d = id_m feeder"
    by (simp add: feedBatch_def feeder_def)
  have unmatched: "\<forall>d\<in>set feedBatch. id_d d \<noteq> id_m packer"
    by (simp add: feedBatch_def packer_def)
  have at0: "machines lineStore ! 0 = feeder" and at1: "machines lineStore ! 1 = packer"
    and len: "length (machines lineStore) = 2"
    by (simp_all add: lineStore_def)
  note merge = batchUpdate_left_merge [of feedBatch lineStore]
  from merge have len': "length (machines (batchUpdateFromProductionData feedBatch lineStore)) = 2"
    using len by simp
  from merge have pointwise: "\<forall>k < length (machines lineStore).
      let m = machines lineStore ! k; m' = machines (batchUpdateFromProductionData feedBatch lineStore) ! k
      in id_m m' = id_m m \<and> name m' = name m \<and> position m' = position m \<and>
         type_m m' = type_m m \<and> description m' = description m \<and>
         ((\<exists>d\<in>set feedBatch. id_d d = id_m m) \<longrightarrow>
            (\<exists>d\<in>set feedBatch. id_d d = id_m m \<and> status m' = status_d d \<and>
               throughput m' = throughput_d d)) \<and>
         ((\<forall>d\<in>set feedBatch. id_d d \<noteq> id_m m) \<longrightarrow> m' = m)"
    by (elim conjE)
  from pointwise [rule_format, of 1] len at1 unmatched
  have second: "machines (batchUpdateFromProductionData feedBatch lineStore) ! 1 = packer"
    by (simp add: Let_def)
  from pointwise [rule_format, of 0] len at0 matched
  have first: "\<exists>d\<in>set feedBatch. id_d d = id_m feeder \<and>
      status (machines (batchUpdateFromProductionData feedBatch lineStore) ! 0) = status_d d \<and>
      throughput (machines (batchUpdateFromProductionData feedBatch lineStore) ! 0) = throughput_d d"
    by (simp add: Let_def)
  show ?thesis using matched unmatched len' first second ev by simp
qed

subsection \<open>Duplicate ids in a batch\<close>

lemma find_append_first:
  "\<forall>e\<in>set pre. \<not> P e \<Longrightarrow> P d \<Longrightarrow> find P (pre @ d # post) = Some d"
  by (induction pre) auto

lemma find_filter_keep:
  "(\<And>e. P e \<Longrightarrow> Q e) \<Longrightarrow> find P (filter Q xs) = find P xs"
  by (induction xs) auto

lemma find_drop_later:
  "find (\<lambda>e. id_d e = i) (pre @ d # filter (\<lambda>e. id_d e \<noteq> id_d d) post) =
   find (\<lambda>e. id_d e = i) (pre @ d # post)"
proof (induction pre)
  case Nil
  show ?case
  proof (cases "id_d d = i")
    case True
    then show ?thesis by simp
  next
    case False
    then have "find (\<lambda>e. id_d e = i) (filter (\<lambda>e. id_d e \<noteq> id_d d) post) =
               find (\<lambda>e. id_d e = i) post"
      by (intro find_filter_keep) auto
    with False show ?thesis by simp
  qed
next
  case (Cons p pre)
  then show ?case by simp
qed

lemma reconcile_drop_later:
  "reconcile (pre @ d # filter (\<lambda>e. id_d e \<noteq> id_d d) post) m = reconcile (pre @ d # post) m"
  by (simp add: reconcile_def find_drop_later)

lemma reconcile_first:
  assumes "\<forall>e\<in>set pre. id_d e \<noteq> id_d d" and "id_m m = id_d d"
  shows "reconcile (pre @ d # post) m = m\<lparr>status := status_d d, throughput := throughput_d d\<rparr>"
proof -
  have "find (\<lambda>e. id_d e = id_m m) (pre @ d # post) = Some d"
    using assms by (intro find_append_first) auto
  then show ?thesis by (simp add: reconcile_def)
qed

text \<open>
  C10. When several records of a batch carry the same id, the machine with that id takes
  the status and throughput of the first of them in batch order, and the later ones are
  ignored: removing them from the batch gives the same store. No batch changes the length
  of the machine list or the order of its ids.
\<close>

theorem batchUpdate_first_record_wins:
  "map id_m (machines (batchUpdateFromProductionData data state)) = map id_m (machines state) \<and>
   ((\<forall>e\<in>set pre. id_d e \<noteq> id_d d) \<longrightarrow>
      (\<forall>k < length (machines state). id_m (machines state ! k) = id_d d \<longrightarrow>
         machines (batchUpdateFromProductionData (pre @ d # post) state) ! k =
           (machines state ! k)\<lparr>status := status_d d, throughput := throughput_d d\<rparr>)) \<and>
   batchUpdateFromProductionData (pre @ d # filter (\<lambda>e. id_d e \<noteq> id_d d) post) state =
   batchUpdateFromProductionData (pre @ d # post) state"
proof (intro conjI impI allI)
  show "map id_m (machines (batchUpdateFromProductionData data state)) = map id_m (machines state)"
    by (simp add: batchUpdateFromProductionData_def reconcile_frame)
next
  fix k
  assume "\<forall>e\<in>set pre. id_d e \<noteq> id_d d" and "k < length (machines state)"
    and "id_m (machines state ! k) = id_d d"
  then show "machines (batchUpdateFromProductionData (pre @ d # post) state) ! k =
           (machines state ! k)\<lparr>status := status_d d, throughput := throughput_d d\<rparr>"
    by (simp add: batchUpdateFromProductionData_def reconcile_first)
next
  show "batchUpdateFromProductionData (pre @ d # filter (\<lambda>e. id_d e \<noteq> id_d d) post) state =
        batchUpdateFromProductionData (pre @ d # post) state"
    by (simp add: batchUpdateFromProductionData_def reconcile_drop_later)
qed

theorem batchUpdate_first_record_wins_witness:
  "\<not> (\<exists>e\<in>set [packerMaintained]. id_d e = id_d feederStopped) \<and>
   0 < length (machines lineStore) \<and> id_m (machines lineStore ! 0) = id_d feederStopped \<and>
   machines (batchUpdateFromProductionData [packerMaintained, feederStopped, feederActive] lineStore) =
     [feeder\<lparr>status := Stopped, throughput := Fin 0\<rparr>,
      packer\<lparr>status := Maintenance, throughput := Fin 0\<rparr>] \<and>
   batchUpdateFromProductionData [packerMaintained, feederStopped] lineStore =
     batchUpdateFromProductionData [packerMaintained, feederStopped, feederActive] lineStore"
proof -
  have later: "filter (\<lambda>e. id_d e \<noteq> id_d feederStopped) [feederActive] = []"
    by (simp add: feederStopped_def feederActive_def)
  have pre: "\<forall>e\<in>set [packerMaintained]. id_d e \<noteq> id_d feederStopped"
    by (simp add: packerMaintained_def feederStopped_def)
  have k: "0 < length (machines lineStore)"
    "id_m (machines lineStore ! 0) = id_d feederStopped"
    by (simp_all add: lineStore_def feeder_def feederStopped_def)
  note wins = batchUpdate_first_record_wins
    [of "[packerMaintained, feederStopped, feederActive]" lineStore
        "[packerMaintained]" feederStopped "[feederActive]"]
  from wins pre k
  have first: "machines (batchUpdateFromProductionData
        ([packerMaintained] @ feederStopped # [feederActive]) lineStore) ! 0 =
      (machines lineStore ! 0)\<lparr>status := status_d feederStopped,
         throughput := throughput_d feederStopped\<rparr>"
    by blast
  from wins have "batchUpdateFromProductionData
      ([packerMaintained] @ feederStopped #
         filter (\<lambda>e. id_d e \<noteq> id_d feederStopped) [feederActive]) lineStore =
      batchUpdateFromProductionData ([packerMaintained] @ feederStopped # [feederActive]) lineStore"
    by (elim conjE)
  then have ignored: "batchUpdateFromProductionData [packerMaintained, feederStopped] lineStore =
     batchUpdateFromProductionData [packerMaintained, feederStopped, feederActive] lineStore"
    unfolding later by simp
  have ev: "machines (batchUpdateFromProductionData
        [packerMaintained, feederStopped, feederActive] lineStore) =
     [feeder\<lparr>status := Stopped, throughput := Fin 0\<rparr>,
      packer\<lparr>status := Maintenance, throughput := Fin 0\<rparr>]"
    by (simp add: packerMaintained_def feederStopped_def feederActive_def lineStore_def
        feeder_def packer_def batchUpdateFromProductionData_def reconcile_def)
  show ?thesis using pre k first ignored ev by simp
qed

section \<open>Deletion\<close>

text \<open>
  C2. After \<open>deleteMachine i\<close> no machine has id \<open>i\<close>, no connection starts or ends at
  \<open>i\<close>, and a selection equal to \<open>i\<close> is cleared. If no machine has id \<open>i\<close> the machine
  list is unchanged; the call changes nothing at all if, in addition, no connection
  starts or ends at \<open>i\<close> and \<open>i\<close> is not the selection.
\<close>

theorem deleteMachine_cascade:
  "i \<notin> set (machineIds (deleteMachine i state)) \<and>
   \<not> (\<exists>c\<in>set (connections (deleteMachine i state)). fromMachineId c = i \<or> toMachineId c = i) \<and>
   (selectedMachineId state = Some i \<longrightarrow> selectedMachineId (deleteMachine i state) = None) \<and>
   (i \<notin> set (machineIds state) \<longrightarrow> machines (deleteMachine i state) = machines state) \<and>
   (i \<notin> set (machineIds state) \<and>
    \<not> (\<exists>c\<in>set (connections state). fromMachineId c = i \<or> toMachineId c = i) \<and>
    selectedMachineId state \<noteq> Some i \<longrightarrow> deleteMachine i state = state)"
proof (intro conjI impI)
  show "i \<notin> set (machineIds (deleteMachine i state))"
    by (auto simp: machineIds_def deleteMachine_def)
  show "\<not> (\<exists>c\<in>set (connections (deleteMachine i state)). fromMachineId c = i \<or> toMachineId c = i)"
    by (auto simp: deleteMachine_def)
  show "selectedMachineId (deleteMachine i state) = None" if "selectedMachineId state = Some i"
    using that by (simp add: deleteMachine_def)
  show "machines (deleteMachine i state) = machines state" if "i \<notin> set (machineIds state)"
  proof -
    from that have "filter (\<lambda>m. id_m m \<noteq> i) (machines state) = machines state"
      by (intro filter_True) (auto simp: machineIds_def)
    then show ?thesis by (simp add: deleteMachine_def)
  qed
  show "deleteMachine i state = state"
    if "i \<notin> set (machineIds state) \<and>
        \<not> (\<exists>c\<in>set (connections state). fromMachineId c = i \<or> toMachineId c = i) \<and>
        selectedMachineId state \<noteq> Some i"
  proof -
    from that have ms: "filter (\<lambda>m. id_m m \<noteq> i) (machines state) = machines state"
      by (intro filter_True) (auto simp: machineIds_def)
    from that have cs: "filter (\<lambda>c. fromMachineId c \<noteq> i \<and> toMachineId c \<noteq> i) (connections state) =
        connections state"
      by (intro filter_True) auto
    from that ms cs show ?thesis by (simp add: deleteMachine_def)
  qed
qed

theorem deleteMachine_cascade_witness:
  "selectedMachineId lineStore = Some ''m1'' \<and>
   deleteMachine ''m1'' lineStore = \<lparr>machines = [packer], connections = [], selectedMachineId = None\<rparr> \<and>
   ''m7'' \<notin> set (machineIds lineStore) \<and>
   \<not> (\<exists>c\<in>set (connections lineStore). fromMachineId c = ''m7'' \<or> toMachineId c = ''m7'') \<and>
   selectedMachineId lineStore \<noteq> Some ''m7'' \<and>
   deleteMachine ''m7'' lineStore = lineStore"
proof -
  have sel: "selectedMachineId lineStore = Some ''m1''"
    by (simp add: lineStore_def)
  have absent: "''m7'' \<notin> set (machineIds lineStore)"
    "\<not> (\<exists>c\<in>set (connections lineStore). fromMachineId c = ''m7'' \<or> toMachineId c = ''m7'')"
    "selectedMachineId lineStore \<noteq> Some ''m7''"
    by (simp_all add: lineStore_def machineIds_def feeder_def packer_def)
  from deleteMachine_cascade [of "''m1''" lineStore] sel
  have cleared: "selectedMachineId (deleteMachine ''m1'' lineStore) = None"
    by blast
  from deleteMachine_cascade [of "''m7''" lineStore] absent
  have noop: "deleteMachine ''m7'' lineStore = lineStore"
    by blast
  have ev: "deleteMachine ''m1'' lineStore =
      \<lparr>machines = [packer], connections = [], selectedMachineId = None\<rparr>"
    by (simp add: deleteMachine_def lineStore_def feeder_def packer_def)
  show ?thesis using sel absent cleared noop ev by simp
qed

theorem deleteMachine_absent_counterexample:
  "''a'' \<notin> set (machineIds danglingStore) \<and> deleteMachine ''a'' danglingStore \<noteq> danglingStore"
  by (simp add: danglingStore_def addConnection_def initialState_def machineIds_def
      deleteMachine_def)

section \<open>Connections\<close>

lemma addConnection_self: "addConnection now rnd a a state = state"
  by (simp add: addConnection_def)

lemma addConnection_existing:
  "\<exists>c\<in>set (connections state). fromMachineId c = a \<and> toMachineId c = b \<Longrightarrow>
   addConnection now rnd a b state = state"
  by (auto simp: addConnection_def list_ex_iff)

lemma addConnection_twice:
  "addConnection now' rnd' a b (addConnection now rnd a b state) = addConnection now rnd a b state"
  by (auto simp: addConnection_def list_ex_iff)

lemma pairCount_addConnection:
  "a \<noteq> b \<Longrightarrow> pairCount a b state \<le> 1 \<Longrightarrow> pairCount a b (addConnection now rnd a b state) = 1"
proof -
  assume ne: "a \<noteq> b" and le: "pairCount a b state \<le> 1"
  show ?thesis
  proof (cases "list_ex (\<lambda>c. fromMachineId c = a \<and> toMachineId c = b) (connections state)")
    case True
    then have "filter (\<lambda>c. fromMachineId c = a \<and> toMachineId c = b) (connections state) \<noteq> []"
      by (auto simp: list_ex_iff filter_empty_conv)
    then have "0 < pairCount a b state"
      by (simp add: pairCount_def)
    with le True ne show ?thesis
      by (simp add: addConnection_def)
  next
    case False
    then have "filter (\<lambda>c. fromMachineId c = a \<and> toMachineId c = b) (connections state) = []"
      by (auto simp: list_ex_iff filter_empty_conv)
    with False ne show ?thesis
      by (simp add: addConnection_def pairCount_def)
  qed
qed

text \<open>
  C7. \<open>addConnection a a\<close> leaves the store unchanged. \<open>addConnection a b\<close> leaves the
  store unchanged when a connection with the ordered pair \<open>(a, b)\<close> exists. A second
  \<open>addConnection a b\<close> right after a first changes nothing, so for distinct \<open>a\<close> and \<open>b\<close>,
  in a store with at most one connection from \<open>a\<close> to \<open>b\<close>, two successive calls leave
  exactly one connection from \<open>a\<close> to \<open>b\<close>.
\<close>

theorem addConnection_rejections:
  "addConnection now rnd a a state = state \<and>
   ((\<exists>c\<in>set (connections state). fromMachineId c = a \<and> toMachineId c = b) \<longrightarrow>
      addConnection now rnd a b state = state) \<and>
   addConnection now' rnd' a b (addConnection now rnd a b state) =
     addConnection now rnd a b state \<and>
   (a \<noteq> b \<and> pairCount a b state \<le> 1 \<longrightarrow>
      pairCount a b (addConnection now' rnd' a b (addConnection now rnd a b state)) = 1)"
  using addConnection_self [of now rnd a state] addConnection_existing [of state a b now rnd]
    addConnection_twice [of now' rnd' a b now rnd state]
    pairCount_addConnection [of a b state now rnd]
  by simp

theorem addConnection_rejections_witness:
  "addConnection 5 ''x'' ''m1'' ''m1'' lineStore = lineStore \<and>
   (\<exists>c\<in>set (connections lineStore). fromMachineId c = ''m1'' \<and> toMachineId c = ''m2'') \<and>
   addConnection 5 ''x'' ''m1'' ''m2'' lineStore = lineStore \<and>
   ''m2'' \<noteq> ''m1'' \<and> pairCount ''m2'' ''m1'' lineStore \<le> 1 \<and>
   pairCount ''m2'' ''m1''
     (addConnection 6 ''y'' ''m2'' ''m1'' (addConnection 5 ''x'' ''m2'' ''m1'' lineStore)) = 1"
proof -
  have ex: "\<exists>c\<in>set (connections lineStore). fromMachineId c = ''m1'' \<and> toMachineId c = ''m2''"
    by (simp add: lineStore_def)
  have fresh: "''m2'' \<noteq> ''m1''" "pairCount ''m2'' ''m1'' lineStore \<le> 1"
    by (simp_all add: lineStore_def pairCount_def)
  from addConnection_rejections [of 5 "''x''" "''m1''" lineStore "''m2''" 5 "''x''"] ex
  have self: "addConnection 5 ''x'' ''m1'' ''m1'' lineStore = lineStore"
    and dup: "addConnection 5 ''x'' ''m1'' ''m2'' lineStore = lineStore"
    by blast+
  from addConnection_rejections [of 5 "''x''" "''m2''" lineStore "''m1''" 6 "''y''"] fresh
  have one: "pairCount ''m2'' ''m1''
     (addConnection 6 ''y'' ''m2'' ''m1'' (addConnection 5 ''x'' ''m2'' ''m1'' lineStore)) = 1"
    by blast
  show ?thesis using ex fresh self dup one by simp
qed

section \<open>Machine ids\<close>

lemma machineIds_addMachine:
  "machineIds (addMachine now rnd machine state) = machineIds state @ [machineId now rnd]"
  by (simp add: machineIds_def addMachine_def withId_def)

lemma machineIds_addMachines:
  "machineIds (addMachines calls state) = machineIds state @ generatedIds calls"
proof (induction calls arbitrary: state)
  case Nil
  then show ?case by (simp add: generatedIds_def)
next
  case (Cons call calls)
  obtain now rnd machine where call: "call = (now, rnd, machine)"
    by (cases call) auto
  have "machineIds (addMachines (call # calls) state) =
        machineIds (addMachine now rnd machine state) @ generatedIds calls"
    using Cons.IH [of "addMachine now rnd machine state"] call by simp
  then show ?case
    by (simp add: machineIds_addMachine call generatedIds_def)
qed

lemma generatedIds_take: "generatedIds (take k calls) = take k (generatedIds calls)"
  by (simp add: generatedIds_def take_map)

text \<open>
  C3, amended. From a store whose machine ids are pairwise distinct, a sequence of
  \<open>addMachine\<close> calls whose generated ids (built from the clock and the random reading
  of each call) are pairwise distinct and differ from the ids of the store keeps the ids
  of all machines pairwise distinct after every call. The store makes no check of its
  own: the ids after the calls are the ids before followed by the generated ones.
\<close>

theorem addMachine_ids_distinct:
  "machineIds (addMachines calls state) = machineIds state @ generatedIds calls \<and>
   (distinct (machineIds state) \<and> distinct (generatedIds calls) \<and>
    set (machineIds state) \<inter> set (generatedIds calls) = {} \<longrightarrow>
    (\<forall>k \<le> length calls. distinct (machineIds (addMachines (take k calls) state))))"
proof (intro conjI impI allI)
  show "machineIds (addMachines calls state) = machineIds state @ generatedIds calls"
    by (rule machineIds_addMachines)
next
  fix k
  assume fresh: "distinct (machineIds state) \<and> distinct (generatedIds calls) \<and>
    set (machineIds state) \<inter> set (generatedIds calls) = {}"
  have sub: "set (take k (generatedIds calls)) \<subseteq> set (generatedIds calls)"
    by (rule set_take_subset)
  from fresh have "distinct (take k (generatedIds calls))"
    by simp
  moreover from fresh sub have "set (machineIds state) \<inter> set (take k (generatedIds calls)) = {}"
    by blast
  ultimately show "distinct (machineIds (addMachines (take k calls) state))"
    using fresh by (simp add: machineIds_addMachines generatedIds_take)
qed

theorem addMachine_ids_distinct_witness:
  "distinct (machineIds lineStore) \<and>
   distinct (generatedIds [(1, ''abc'', newFields), (1, ''abd'', newFields)]) \<and>
   set (machineIds lineStore) \<inter> set (generatedIds [(1, ''abc'', newFields), (1, ''abd'', newFields)]) = {} \<and>
   distinct (machineIds (addMachines [(1, ''abc'', newFields), (1, ''abd'', newFields)] lineStore)) \<and>
   machineIds (addMachines [(1, ''abc'', newFields), (1, ''abd'', newFields)] lineStore) =
     [''m1'', ''m2'', machineId 1 ''abc'', machineId 1 ''abd'']"
proof -
  have old: "distinct (machineIds lineStore)"
    by (simp add: machineIds_def lineStore_def feeder_def packer_def)
  have new: "distinct (generatedIds [(1, ''abc'', newFields), (1, ''abd'', newFields)])"
    by (simp add: generatedIds_def machineId_def)
  have apart: "set (machineIds lineStore) \<inter>
      set (generatedIds [(1, ''abc'', newFields), (1, ''abd'', newFields)]) = {}"
    by (simp add: machineIds_def lineStore_def feeder_def packer_def generatedIds_def machineId_def)
  note apply_it = addMachine_ids_distinct
    [of "[(1, ''abc'', newFields), (1, ''abd'', newFields)]" lineStore]
  from apply_it old new apart
  have "\<forall>k \<le> length [(1 :: nat, ''abc'', newFields), (1, ''abd'', newFields)].
      distinct (machineIds (addMachines (take k [(1, ''abc'', newFields), (1, ''abd'', newFields)]) lineStore))"
    by blast
  from this [rule_format, of 2]
  have after: "distinct (machineIds (addMachines [(1, ''abc'', newFields), (1, ''abd'', newFields)] lineStore))"
    by simp
  from apply_it have ids: "machineIds (addMachines [(1, ''abc'', newFields), (1, ''abd'', newFields)] lineStore) =
     [''m1'', ''m2'', machineId 1 ''abc'', machineId 1 ''abd'']"
    by (simp add: machineIds_def lineStore_def feeder_def packer_def generatedIds_def)
  show ?thesis using old new apart after ids by simp
qed

theorem addMachine_ids_counterexample:
  "distinct (machineIds initialState) \<and>
   \<not> distinct (machineIds (addMachines [(1, ''abc'', newFields), (1, ''abc'', newFields)] initialState))"
  by (simp add: machineIds_def initialState_def addMachine_def withId_def)

lemma machineIds_updateMachine:
  "id_p updates = None \<Longrightarrow> machineIds (updateMachine i updates state) = machineIds state"
  by (simp add: machineIds_def updateMachine_def spread_def)

lemma machineIds_updateMachine_id:
  "id_p updates = Some j \<Longrightarrow>
   machineIds (updateMachine i updates state) = map (\<lambda>x. if x = i then j else x) (machineIds state)"
  by (simp add: machineIds_def updateMachine_def spread_def)

lemma machineIds_updateMachineStatus:
  "machineIds (updateMachineStatus i s state) = machineIds state"
  by (simp add: machineIds_def updateMachineStatus_def)

lemma machineIds_updateMachineThroughput:
  "machineIds (updateMachineThroughput i t state) = machineIds state"
  by (simp add: machineIds_def updateMachineThroughput_def)

lemma machineIds_batchUpdate:
  "machineIds (batchUpdateFromProductionData data state) = machineIds state"
  by (simp add: machineIds_def batchUpdateFromProductionData_def reconcile_frame)

lemma machineIds_deleteMachine:
  "machineIds (deleteMachine i state) = filter (\<lambda>j. j \<noteq> i) (machineIds state)"
  by (simp add: machineIds_def deleteMachine_def filter_map comp_def)

lemma machineIds_other:
  "machineIds (selectMachine x state) = machineIds state"
  "machineIds (addConnection now rnd a b state) = machineIds state"
  "machineIds (deleteConnection c state) = machineIds state"
  by (simp_all add: machineIds_def selectMachine_def addConnection_def deleteConnection_def)

text \<open>
  C6, amended. A machine's id is assigned by \<open>addMachine\<close>. No store operation changes
  the id of an existing machine, except \<open>updateMachine\<close> called with a partial that
  carries an \<open>id\<close> key: \<open>addMachine\<close> appends one id, \<open>deleteMachine\<close> removes the given
  id, and every other call, \<open>updateMachine\<close> without an \<open>id\<close> key included, leaves the
  list of ids as it is. \<open>updateMachine i\<close> with \<open>id: j\<close> in the partial gives the id \<open>j\<close>
  to every machine whose id is \<open>i\<close>.
\<close>

theorem machine_id_immutable:
  "(keepsId op \<longrightarrow>
      machineIds (applyOp op state) =
        (case op of
           AddMachine now rnd machine \<Rightarrow> machineIds state @ [machineId now rnd]
         | DeleteMachine i \<Rightarrow> filter (\<lambda>j. j \<noteq> i) (machineIds state)
         | _ \<Rightarrow> machineIds state)) \<and>
   (id_p updates = Some j \<longrightarrow>
      machineIds (updateMachine i updates state) =
        map (\<lambda>x. if x = i then j else x) (machineIds state))"
proof (intro conjI impI)
  assume "keepsId op"
  then show "machineIds (applyOp op state) =
        (case op of
           AddMachine now rnd machine \<Rightarrow> machineIds state @ [machineId now rnd]
         | DeleteMachine i \<Rightarrow> filter (\<lambda>j. j \<noteq> i) (machineIds state)
         | _ \<Rightarrow> machineIds state)"
    by (cases op)
      (simp_all add: machineIds_addMachine machineIds_updateMachine machineIds_deleteMachine
        machineIds_other machineIds_updateMachineStatus machineIds_updateMachineThroughput
        machineIds_batchUpdate)
next
  assume "id_p updates = Some j"
  then show "machineIds (updateMachine i updates state) =
        map (\<lambda>x. if x = i then j else x) (machineIds state)"
    by (rule machineIds_updateMachine_id)
qed

theorem machine_id_immutable_witness:
  "keepsId (UpdateMachine ''m1'' (noUpdates\<lparr>name_p := Some ''Feeder 2''\<rparr>)) \<and>
   machineIds (applyOp (UpdateMachine ''m1'' (noUpdates\<lparr>name_p := Some ''Feeder 2''\<rparr>)) lineStore) =
     [''m1'', ''m2''] \<and>
   map name (machines (applyOp (UpdateMachine ''m1'' (noUpdates\<lparr>name_p := Some ''Feeder 2''\<rparr>)) lineStore)) =
     [''Feeder 2'', ''Packer''] \<and>
   id_p (renameTo ''m9'') = Some ''m9'' \<and>
   machineIds (updateMachine ''m1'' (renameTo ''m9'') lineStore) = [''m9'', ''m2'']"
proof -
  have keeps: "keepsId (UpdateMachine ''m1'' (noUpdates\<lparr>name_p := Some ''Feeder 2''\<rparr>))"
    by (simp add: noUpdates_def)
  have carries: "id_p (renameTo ''m9'') = Some ''m9''"
    by (simp add: renameTo_def)
  have ids: "machineIds lineStore = [''m1'', ''m2'']"
    by (simp add: machineIds_def lineStore_def feeder_def packer_def)
  from machine_id_immutable
    [of "UpdateMachine ''m1'' (noUpdates\<lparr>name_p := Some ''Feeder 2''\<rparr>)" lineStore
        "renameTo ''m9''" "''m9''" "''m1''"] keeps carries
  have same: "machineIds (applyOp (UpdateMachine ''m1'' (noUpdates\<lparr>name_p := Some ''Feeder 2''\<rparr>)) lineStore) =
       machineIds lineStore"
    and renamed: "machineIds (updateMachine ''m1'' (renameTo ''m9'') lineStore) =
       map (\<lambda>x. if x = ''m1'' then ''m9'' else x) (machineIds lineStore)"
    by simp_all
  have names: "map name (machines (applyOp (UpdateMachine ''m1'' (noUpdates\<lparr>name_p := Some ''Feeder 2''\<rparr>)) lineStore)) =
     [''Feeder 2'', ''Packer'']"
    by (simp add: updateMachine_def spread_def noUpdates_def lineStore_def feeder_def packer_def)
  show ?thesis using keeps carries same renamed names ids by simp
qed

theorem machine_id_counterexample:
  "machineIds lineStore = [''m1'', ''m2''] \<and>
   machineIds (updateMachine ''m1'' (renameTo ''m9'') lineStore) = [''m9'', ''m2'']"
  by (simp add: machineIds_def updateMachine_def spread_def renameTo_def noUpdates_def
      lineStore_def feeder_def packer_def)

section \<open>Selection\<close>

lemma selection_frame:
  "selectedMachineId (addMachine now rnd machine state) = selectedMachineId state"
  "selectedMachineId (updateMachine i updates state) = selectedMachineId state"
  "selectedMachineId (addConnection now rnd a b state) = selectedMachineId state"
  "selectedMachineId (deleteConnection c state) = selectedMachineId state"
  "selectedMachineId (updateMachineStatus i s state) = selectedMachineId state"
  "selectedMachineId (updateMachineThroughput i t state) = selectedMachineId state"
  "selectedMachineId (batchUpdateFromProductionData data state) = selectedMachineId state"
  by (simp_all add: addMachine_def updateMachine_def addConnection_def deleteConnection_def
      updateMachineStatus_def updateMachineThroughput_def batchUpdateFromProductionData_def)

lemma selectionValid_same_ids:
  "selectionValid state \<Longrightarrow> selectedMachineId state' = selectedMachineId state \<Longrightarrow>
   set (machineIds state) \<subseteq> set (machineIds state') \<Longrightarrow> selectionValid state'"
  by (auto simp: selectionValid_def split: option.splits)

lemma selectionValid_deleteMachine:
  "selectionValid state \<Longrightarrow> selectionValid (deleteMachine i state)"
proof -
  assume valid: "selectionValid state"
  show ?thesis
  proof (cases "selectedMachineId state = Some i")
    case True
    then have "selectedMachineId (deleteMachine i state) = None"
      by (simp add: deleteMachine_def)
    then show ?thesis by (simp add: selectionValid_def)
  next
    case False
    then have sel: "selectedMachineId (deleteMachine i state) = selectedMachineId state"
      by (simp add: deleteMachine_def)
    show ?thesis
    proof (cases "selectedMachineId state")
      case None
      with sel show ?thesis by (simp add: selectionValid_def)
    next
      case (Some s)
      with False have "s \<noteq> i" by simp
      moreover from valid Some have "s \<in> set (machineIds state)"
        by (simp add: selectionValid_def)
      ultimately have "s \<in> set (machineIds (deleteMachine i state))"
        by (simp add: machineIds_deleteMachine)
      with sel Some show ?thesis by (simp add: selectionValid_def)
    qed
  qed
qed

lemma selectionValid_selectMachine:
  "selectsPresent state (SelectMachine x) \<Longrightarrow> selectionValid (selectMachine x state)"
  by (cases x) (simp_all add: selectionValid_def selectMachine_def machineIds_def)

lemma selectionValid_applyOp:
  assumes "selectionValid state" and "selectsPresent state op"
  shows "selectionValid (applyOp op state)"
proof (cases op)
  case (AddMachine now rnd machine)
  with assms(1) show ?thesis
    by (auto intro: selectionValid_same_ids simp: selection_frame machineIds_addMachine)
next
  case (UpdateMachine i updates)
  with assms show ?thesis
    by (auto intro: selectionValid_same_ids simp: selection_frame machineIds_updateMachine)
next
  case (DeleteMachine i)
  with assms(1) show ?thesis
    by (simp add: selectionValid_deleteMachine)
next
  case (SelectMachine x)
  with assms(2) show ?thesis
    by (simp add: selectionValid_selectMachine)
next
  case (AddConnection now rnd a b)
  with assms(1) show ?thesis
    by (auto intro: selectionValid_same_ids simp: selection_frame machineIds_other)
next
  case (DeleteConnection c)
  with assms(1) show ?thesis
    by (auto intro: selectionValid_same_ids simp: selection_frame machineIds_other)
next
  case (UpdateMachineStatus i s)
  with assms(1) show ?thesis
    by (auto intro: selectionValid_same_ids simp: selection_frame machineIds_updateMachineStatus)
next
  case (UpdateMachineThroughput i t)
  with assms(1) show ?thesis
    by (auto intro: selectionValid_same_ids simp: selection_frame machineIds_updateMachineThroughput)
next
  case (BatchUpdate data)
  with assms(1) show ?thesis
    by (auto intro: selectionValid_same_ids simp: selection_frame machineIds_batchUpdate)
qed

lemma selectionValid_runOps:
  "selectionValid state \<Longrightarrow> allSelectPresent state ops \<Longrightarrow> selectionValid (runOps ops state)"
proof (induction ops arbitrary: state)
  case Nil
  then show ?case by simp
next
  case (Cons op ops)
  from Cons.prems have "selectionValid (applyOp op state)"
    by (simp add: selectionValid_applyOp)
  moreover from Cons.prems have "allSelectPresent (applyOp op state) ops"
    by simp
  ultimately show ?case
    using Cons.IH by simp
qed

text \<open>
  C5, amended. \<open>selectMachine\<close> stores its argument as it is, without looking at the
  machines. The selection of the initial state is empty, and along every sequence of
  store operations in which each \<open>selectMachine\<close> call passes \<open>null\<close> or the id of a
  machine present at that moment, and no \<open>updateMachine\<close> call carries an \<open>id\<close> key, the
  selection stays empty or equal to the id of a machine of the store.
\<close>

theorem selection_valid_invariant:
  "selectionValid initialState \<and>
   (selectionValid state \<and> allSelectPresent state ops \<longrightarrow> selectionValid (runOps ops state))"
  using selectionValid_runOps [of state ops]
  by (simp add: selectionValid_def initialState_def)

theorem selection_valid_invariant_witness:
  "selectionValid initialState \<and>
   allSelectPresent initialState
     [AddMachine 1 ''abc'' newFields, SelectMachine (Some (machineId 1 ''abc'')),
      UpdateMachineStatus (machineId 1 ''abc'') Active, AddMachine 1 ''abd'' newFields,
      DeleteMachine (machineId 1 ''abd'')] \<and>
   selectedMachineId (runOps
     [AddMachine 1 ''abc'' newFields, SelectMachine (Some (machineId 1 ''abc'')),
      UpdateMachineStatus (machineId 1 ''abc'') Active, AddMachine 1 ''abd'' newFields,
      DeleteMachine (machineId 1 ''abd'')] initialState) = Some (machineId 1 ''abc'') \<and>
   selectionValid (runOps
     [AddMachine 1 ''abc'' newFields, SelectMachine (Some (machineId 1 ''abc'')),
      UpdateMachineStatus (machineId 1 ''abc'') Active, AddMachine 1 ''abd'' newFields,
      DeleteMachine (machineId 1 ''abd'')] initialState)"
proof -
  have ok: "allSelectPresent initialState
     [AddMachine 1 ''abc'' newFields, SelectMachine (Some (machineId 1 ''abc'')),
      UpdateMachineStatus (machineId 1 ''abc'') Active, AddMachine 1 ''abd'' newFields,
      DeleteMachine (machineId 1 ''abd'')]"
    by (simp add: machineIds_addMachine)
  have sel: "selectedMachineId (runOps
     [AddMachine 1 ''abc'' newFields, SelectMachine (Some (machineId 1 ''abc'')),
      UpdateMachineStatus (machineId 1 ''abc'') Active, AddMachine 1 ''abd'' newFields,
      DeleteMachine (machineId 1 ''abd'')] initialState) = Some (machineId 1 ''abc'')"
    by (simp add: selection_frame deleteMachine_def selectMachine_def machineId_def)
  from selection_valid_invariant [of initialState
     "[AddMachine 1 ''abc'' newFields, SelectMachine (Some (machineId 1 ''abc'')),
      UpdateMachineStatus (machineId 1 ''abc'') Active, AddMachine 1 ''abd'' newFields,
      DeleteMachine (machineId 1 ''abd'')]"] ok
  have "selectionValid (runOps
     [AddMachine 1 ''abc'' newFields, SelectMachine (Some (machineId 1 ''abc'')),
      UpdateMachineStatus (machineId 1 ''abc'') Active, AddMachine 1 ''abd'' newFields,
      DeleteMachine (machineId 1 ''abd'')] initialState)"
    by blast
  moreover from selection_valid_invariant [of initialState "[]"]
  have "selectionValid initialState"
    by (rule conjunct1)
  ultimately show ?thesis using ok sel by simp
qed

theorem selection_dangling_counterexample:
  "\<not> selectionValid (runOps [SelectMachine (Some ''ghost'')] initialState)"
  by (simp add: selectionValid_def selectMachine_def initialState_def machineIds_def)

section \<open>Simulator\<close>













subsection \<open>The status gate of the fluctuation\<close>

text \<open>
  C4. The fluctuation block tests the status of the element of the array the tick
  iterates, which was read before step 1, and not the status step 1 has just written to
  the store. A tick over the machines of a store that holds one idle machine with
  throughput 100, with readings that make step 1 draw \<open>active\<close>: after the tick the
  machine is \<open>active\<close> in the store and its throughput is still 100, where the
  fluctuation for these readings at range 10 would have set it to 108.
\<close>

theorem simulateStep_skips_newly_active:
  "map status (machines idleStore) = [Idle] \<and>
   map throughput (machines idleStore) = [Fin 100] \<and>
   map status (machines (simulateStep defaultConfig (machines idleStore) activatingTick idleStore)) =
     [Active] \<and>
   map throughput (machines (simulateStep defaultConfig (machines idleStore) activatingTick idleStore)) =
     [Fin 100] \<and>
   Math_max (Fin 0) (js_add (Fin 100) (fluctuation defaultConfig activating)) = Fin 108"
  by (simp add: simulateStep_def activatingTick_def idleStore_def simulateMachine_def
      activating_def generateRandomStatus_def updateMachineStatus_def fluctuate_def
      fluctuation_def js_sub_def defaultConfig_def packer_def)

section \<open>Push feed adapter\<close>

lemma handle_max:
  "maxReconnectAttempts (fst (handle e w)) = maxReconnectAttempts w"
  by (cases e) (simp_all add: attemptReconnect_def)

lemma runSocket_max:
  "maxReconnectAttempts (fst (runSocket evs w)) = maxReconnectAttempts w"
proof (induction evs arbitrary: w)
  case Nil
  show ?case by simp
next
  case (Cons e es)
  obtain w1 scheduled where h: "handle e w = (w1, scheduled)"
    by (cases "handle e w")
  obtain w2 n where r: "runSocket es w1 = (w2, n)"
    by (cases "runSocket es w1")
  from h have "maxReconnectAttempts w1 = maxReconnectAttempts w"
    using handle_max [of e w] by simp
  moreover from r have "maxReconnectAttempts w2 = maxReconnectAttempts w1"
    using Cons.IH [of w1] by simp
  ultimately show ?case
    using h r by simp
qed

lemma handle_budget:
  assumes "e \<noteq> OnOpen" and "handle e w = (w1, scheduled)"
  shows "(if scheduled then 1 else 0) + (maxReconnectAttempts w1 - reconnectAttempts w1) \<le>
         maxReconnectAttempts w - reconnectAttempts w"
proof (cases e)
  case OnClose
  with assms(2) show ?thesis
    by (auto simp: attemptReconnect_def split: if_splits)
qed (use assms in auto)

lemma runSocket_budget:
  "OnOpen \<notin> set evs \<Longrightarrow>
   snd (runSocket evs w) \<le> maxReconnectAttempts w - reconnectAttempts w"
proof (induction evs arbitrary: w)
  case Nil
  show ?case by simp
next
  case (Cons e es)
  obtain w1 scheduled where h: "handle e w = (w1, scheduled)"
    by (cases "handle e w")
  obtain w2 n where r: "runSocket es w1 = (w2, n)"
    by (cases "runSocket es w1")
  from Cons.prems have "e \<noteq> OnOpen" and rest: "OnOpen \<notin> set es"
    by auto
  with h have step: "(if scheduled then 1 else 0) + (maxReconnectAttempts w1 - reconnectAttempts w1) \<le>
      maxReconnectAttempts w - reconnectAttempts w"
    by (intro handle_budget)
  from rest r have "n \<le> maxReconnectAttempts w1 - reconnectAttempts w1"
    using Cons.IH [of w1] by simp
  with step have "(if scheduled then 1 else 0) + n \<le> maxReconnectAttempts w - reconnectAttempts w"
    by simp
  with h r show ?case by simp
qed

lemma handle_terminal:
  "e \<noteq> OnOpen \<Longrightarrow> maxReconnectAttempts w \<le> reconnectAttempts w \<Longrightarrow> handle e w = (w, False)"
  by (cases e) (simp_all add: attemptReconnect_def)

lemma runSocket_terminal:
  "OnOpen \<notin> set evs \<Longrightarrow> maxReconnectAttempts w \<le> reconnectAttempts w \<Longrightarrow>
   runSocket evs w = (w, 0)"
proof (induction evs)
  case Nil
  show ?case by simp
next
  case (Cons e es)
  from Cons.prems have "e \<noteq> OnOpen"
    by auto
  with Cons.prems have "handle e w = (w, False)"
    by (intro handle_terminal)
  moreover from Cons have "runSocket es w = (w, 0)"
    by simp
  ultimately show ?case by simp
qed

text \<open>
  C9. A new adapter allows 5 reconnect attempts and has used none. In a trace of events
  without a successful connection (\<open>onopen\<close>) the adapter schedules at most as many
  reconnects as its maximum exceeds its counter; hence after any earlier events, a
  stretch of events without \<open>onopen\<close> schedules at most the maximum number of reconnects.
  Once the counter has reached the maximum, no event other than \<open>onopen\<close> changes the
  adapter or schedules a reconnect.
\<close>

theorem reconnect_attempts_bounded:
  "maxReconnectAttempts newProductionWebSocket = 5 \<and>
   reconnectAttempts newProductionWebSocket = 0 \<and>
   (OnOpen \<notin> set evs \<longrightarrow>
      snd (runSocket evs w) \<le> maxReconnectAttempts w - reconnectAttempts w \<and>
      snd (runSocket evs (fst (runSocket before w))) \<le> maxReconnectAttempts w) \<and>
   (OnOpen \<notin> set evs \<and> maxReconnectAttempts w \<le> reconnectAttempts w \<longrightarrow>
      runSocket evs w = (w, 0))"
proof -
  have new: "maxReconnectAttempts newProductionWebSocket = 5"
    "reconnectAttempts newProductionWebSocket = 0"
    by (simp_all add: newProductionWebSocket_def)
  have bound: "OnOpen \<notin> set evs \<longrightarrow>
      snd (runSocket evs w) \<le> maxReconnectAttempts w - reconnectAttempts w \<and>
      snd (runSocket evs (fst (runSocket before w))) \<le> maxReconnectAttempts w"
  proof
    assume quiet: "OnOpen \<notin> set evs"
    let ?w = "fst (runSocket before w)"
    from quiet have "snd (runSocket evs ?w) \<le> maxReconnectAttempts ?w - reconnectAttempts ?w"
      by (rule runSocket_budget)
    then have "snd (runSocket evs ?w) \<le> maxReconnectAttempts w"
      by (simp add: runSocket_max)
    with quiet show "snd (runSocket evs w) \<le> maxReconnectAttempts w - reconnectAttempts w \<and>
      snd (runSocket evs ?w) \<le> maxReconnectAttempts w"
      by (simp add: runSocket_budget)
  qed
  have terminal: "OnOpen \<notin> set evs \<and> maxReconnectAttempts w \<le> reconnectAttempts w \<longrightarrow>
      runSocket evs w = (w, 0)"
    by (simp add: runSocket_terminal)
  from new bound terminal show ?thesis
    by (intro conjI)
qed

theorem reconnect_attempts_bounded_witness:
  "OnOpen \<notin> set [OnClose, OnClose, OnError, OnClose, Connect, OnClose, OnClose, OnClose, OnClose] \<and>
   runSocket [OnClose, OnClose, OnError, OnClose, Connect, OnClose, OnClose, OnClose, OnClose]
     newProductionWebSocket = (newProductionWebSocket\<lparr>reconnectAttempts := 5\<rparr>, 5) \<and>
   maxReconnectAttempts (newProductionWebSocket\<lparr>reconnectAttempts := 5\<rparr>) \<le>
     reconnectAttempts (newProductionWebSocket\<lparr>reconnectAttempts := 5\<rparr>) \<and>
   OnOpen \<notin> set [OnClose, Connect, OnClose] \<and>
   runSocket [OnClose, Connect, OnClose] (newProductionWebSocket\<lparr>reconnectAttempts := 5\<rparr>) =
     (newProductionWebSocket\<lparr>reconnectAttempts := 5\<rparr>, 0)"
proof -
  let ?failed = "newProductionWebSocket\<lparr>reconnectAttempts := 5\<rparr>"
  have quiet: "OnOpen \<notin> set [OnClose, OnClose, OnError, OnClose, Connect, OnClose, OnClose, OnClose, OnClose]"
    "OnOpen \<notin> set [OnClose, Connect, OnClose]"
    by simp_all
  have spent: "maxReconnectAttempts ?failed \<le> reconnectAttempts ?failed"
    by (simp add: newProductionWebSocket_def)
  have run: "runSocket [OnClose, OnClose, OnError, OnClose, Connect, OnClose, OnClose, OnClose, OnClose]
     newProductionWebSocket = (?failed, 5)"
    by (simp add: newProductionWebSocket_def attemptReconnect_def)
  note first = reconnect_attempts_bounded
    [of "[OnClose, OnClose, OnError, OnClose, Connect, OnClose, OnClose, OnClose, OnClose]"
        newProductionWebSocket "[]"]
  note later = reconnect_attempts_bounded [of "[OnClose, Connect, OnClose]" ?failed "[]"]
  have bounded: "snd (runSocket [OnClose, OnClose, OnError, OnClose, Connect, OnClose, OnClose, OnClose, OnClose]
      newProductionWebSocket) \<le>
      maxReconnectAttempts newProductionWebSocket - reconnectAttempts newProductionWebSocket"
    using first quiet(1) by simp
  have terminal: "runSocket [OnClose, Connect, OnClose] ?failed = (?failed, 0)"
    by (rule mp [OF conjunct2 [OF conjunct2 [OF conjunct2 [OF later]]]]) (intro conjI quiet spent)
  from bounded show ?thesis
    by (intro conjI quiet run spent terminal)
qed

end
